theory Spec2Isabelle
  imports Complex_Main "HOL-Library.Sublist"
begin

section \<open>Python strings\<close>

text \<open>
  A Python \<open>str\<close> is modelled as a \<open>string\<close>, a list of 8-bit characters: ASCII text
  character by character, anything else as its UTF-8 bytes. Substring tests on UTF-8 bytes
  agree with substring tests on code points. The classes of the patterns (\<open>\d\<close>,
  \<open>\s\<close>) and \<open>lower\<close> below are those of Python on the ASCII range; a byte outside it
  is in no class and is left alone by \<open>lower\<close>. Stripping takes all of Python's
  whitespace.
\<close>

text \<open>\<open>s.startswith(p)\<close>\<close>

fun startswith :: "string \<Rightarrow> string \<Rightarrow> bool" where
  "startswith s [] = True"
| "startswith [] (p # ps) = False"
| "startswith (c # cs) (p # ps) = (c = p \<and> startswith cs ps)"

text \<open>\<open>needle in hay\<close> on strings: \<open>needle\<close> occurs in \<open>hay\<close> as a contiguous run.\<close>

fun contains :: "string \<Rightarrow> string \<Rightarrow> bool" where
  "contains needle [] = (needle = [])"
| "contains needle (c # cs) = (startswith (c # cs) needle \<or> contains needle cs)"

definition upper_letters :: string where
  "upper_letters = ''ABCDEFGHIJKLMNOPQRSTUVWXYZ''"

definition lower_letters :: string where
  "lower_letters = ''abcdefghijklmnopqrstuvwxyz''"

definition lower_char :: "char \<Rightarrow> char" where
  "lower_char c = (case map_of (zip upper_letters lower_letters) c of Some d \<Rightarrow> d | None \<Rightarrow> c)"

text \<open>\<open>s.lower()\<close>\<close>

definition lower :: "string \<Rightarrow> string" where
  "lower s = map lower_char s"

definition newline :: char where
  "newline = CHR 0x0A"

text \<open>\<open>s.split(sep)\<close> for a one-character separator: never empty, \<open>''\<close> gives \<open>['']\<close>.\<close>

fun split_on :: "char \<Rightarrow> string \<Rightarrow> string list" where
  "split_on sep [] = [[]]"
| "split_on sep (c # cs) =
     (if c = sep then [] # split_on sep cs
      else (case split_on sep cs of [] \<Rightarrow> [[c]] | l # ls \<Rightarrow> (c # l) # ls))"

text \<open>
  The ASCII characters that are whitespace for \<open>str.isspace\<close> and for the pattern class
  \<open>\s\<close>.
\<close>

definition ascii_spaces :: string where
  "ascii_spaces = [CHR 0x20, CHR 0x09, CHR 0x0A, CHR 0x0B, CHR 0x0C, CHR 0x0D,
                   CHR 0x1C, CHR 0x1D, CHR 0x1E, CHR 0x1F]"

definition is_space :: "char \<Rightarrow> bool" where
  "is_space c = (c \<in> set ascii_spaces)"

definition is_digit :: "char \<Rightarrow> bool" where
  "is_digit c = (c \<in> set ''0123456789'')"


definition is_upper :: "char \<Rightarrow> bool" where
  "is_upper c = (c \<in> set upper_letters)"

text \<open>
  The whitespace characters beyond ASCII, in UTF-8: U+0085, U+00A0, U+1680, U+2000 to
  U+200A, U+2028, U+2029, U+202F, U+205F and U+3000. With the ASCII ones they are all the
  characters \<open>str.isspace\<close> holds of, which are the ones \<open>str.strip\<close> removes.
\<close>

definition unicode_spaces :: "string list" where
  "unicode_spaces =
     [[CHR 0xC2, CHR 0x85], [CHR 0xC2, CHR 0xA0], [CHR 0xE1, CHR 0x9A, CHR 0x80],
      [CHR 0xE2, CHR 0x80, CHR 0x80], [CHR 0xE2, CHR 0x80, CHR 0x81],
      [CHR 0xE2, CHR 0x80, CHR 0x82], [CHR 0xE2, CHR 0x80, CHR 0x83],
      [CHR 0xE2, CHR 0x80, CHR 0x84], [CHR 0xE2, CHR 0x80, CHR 0x85],
      [CHR 0xE2, CHR 0x80, CHR 0x86], [CHR 0xE2, CHR 0x80, CHR 0x87],
      [CHR 0xE2, CHR 0x80, CHR 0x88], [CHR 0xE2, CHR 0x80, CHR 0x89],
      [CHR 0xE2, CHR 0x80, CHR 0x8A], [CHR 0xE2, CHR 0x80, CHR 0xA8],
      [CHR 0xE2, CHR 0x80, CHR 0xA9], [CHR 0xE2, CHR 0x80, CHR 0xAF],
      [CHR 0xE2, CHR 0x81, CHR 0x9F], [CHR 0xE3, CHR 0x80, CHR 0x80]]"

definition spaces :: "string list" where
  "spaces = map (\<lambda>c. [c]) ascii_spaces @ unicode_spaces"

text \<open>
  Dropping from the front of \<open>s\<close> every character whose encoding is in \<open>ws\<close>. An
  encoding found at the front has the first byte and \<open>length w - 1\<close> bytes after it.
\<close>

fun drop_leading :: "string list \<Rightarrow> string \<Rightarrow> string" where
  "drop_leading ws [] = []"
| "drop_leading ws (c # cs) =
     (case find (\<lambda>w. startswith (c # cs) w) ws of
        Some w \<Rightarrow> drop_leading ws (drop (length w - 1) cs)
      | None \<Rightarrow> c # cs)"

text \<open>
  \<open>s.lstrip()\<close>, \<open>s.rstrip()\<close> and \<open>s.strip()\<close> with no argument. At the end of the
  string the encodings are looked for back to front.
\<close>

definition lstrip :: "string \<Rightarrow> string" where
  "lstrip s = drop_leading spaces s"

definition rstrip :: "string \<Rightarrow> string" where
  "rstrip s = rev (drop_leading (map rev spaces) (rev s))"

definition strip :: "string \<Rightarrow> string" where
  "strip s = rstrip (lstrip s)"

section \<open>The adapter registry (adapters/__init__.py)\<close>

text \<open>
  The four adapter classes. Only \<open>PythonAdapter\<close> is defined in the sources at hand;
  the registry instantiates the class it selects with no argument, which is taken to
  succeed for each of the four.
\<close>

datatype adapter = PythonAdapter | TypeScriptAdapter | GoAdapter | RustAdapter

definition ADAPTERS :: "(string \<times> adapter) list" where
  "ADAPTERS =
     [(''python'', PythonAdapter),
      (''typescript'', TypeScriptAdapter),
      (''javascript'', TypeScriptAdapter),
      (''go'', GoAdapter),
      (''rust'', RustAdapter)]"

definition get_language_adapter :: "string \<Rightarrow> adapter" where
  "get_language_adapter language0 =
     (let language = lower language0 in
      case map_of ADAPTERS language of
        Some adapter_class \<Rightarrow> adapter_class
      | None \<Rightarrow>
          if contains ''python'' language then PythonAdapter
          else if list_ex (\<lambda>js. contains js language)
                    [''typescript'', ''javascript'', ''node'', ''react''] then TypeScriptAdapter
          else if contains ''go'' language then GoAdapter
          else if contains ''rust'' language then RustAdapter
          else PythonAdapter)"

section \<open>Regular expressions as the parsers use them\<close>

text \<open>
  Every pattern of the parsers is a sequence of character classes, each taken once or
  repeated, with unnested capturing groups. \<open>match_here\<close> is the backtracking matcher of
  Python's \<open>re\<close> on such patterns: a greedy repetition tries the longer match first, a
  lazy one the shorter, and the first success in this order is the match. The groups
  closed so far are carried along; the open group collects the characters consumed.
\<close>

datatype cls =
    Lit char      \<comment> \<open>the character itself\<close>
  | Digit         \<comment> \<open>\<open>\d\<close>\<close>
  | Space         \<comment> \<open>\<open>\s\<close>\<close>
  | Upper         \<comment> \<open>\<open>[A-Z]\<close>\<close>
  | DigitOrDot    \<comment> \<open>\<open>[\d.]\<close>\<close>
  | AnyChar       \<comment> \<open>\<open>.\<close>: any character but a newline\<close>

fun cls_match :: "cls \<Rightarrow> char \<Rightarrow> bool" where
  "cls_match (Lit l) c = (c = l)"
| "cls_match Digit c = is_digit c"
| "cls_match Space c = is_space c"
| "cls_match Upper c = is_upper c"
| "cls_match DigitOrDot c = (is_digit c \<or> c = CHR ''.'')"
| "cls_match AnyChar c = (c \<noteq> newline)"

datatype atom =
    One cls        \<comment> \<open>\<open>x\<close>\<close>
  | Star cls       \<comment> \<open>\<open>x*\<close>, greedy\<close>
  | LazyStar cls   \<comment> \<open>\<open>x*?\<close>\<close>
  | GroupOpen      \<comment> \<open>\<open>(\<close>\<close>
  | GroupClose     \<comment> \<open>\<open>)\<close>\<close>

type_synonym pattern = "atom list"

definition consume :: "char \<Rightarrow> string option \<Rightarrow> string option" where
  "consume c cur = map_option (\<lambda>g. g @ [c]) cur"

fun match_here :: "pattern \<Rightarrow> string \<Rightarrow> string option \<Rightarrow> string list \<Rightarrow> string list option" where
  "match_here [] s cur groups = Some groups"
| "match_here (GroupOpen # r) s cur groups = match_here r s (Some []) groups"
| "match_here (GroupClose # r) s cur groups =
     match_here r s None (groups @ [case cur of Some g \<Rightarrow> g | None \<Rightarrow> []])"
| "match_here (One k # r) [] cur groups = None"
| "match_here (One k # r) (c # cs) cur groups =
     (if cls_match k c then match_here r cs (consume c cur) groups else None)"
| "match_here (Star k # r) [] cur groups = match_here r [] cur groups"
| "match_here (Star k # r) (c # cs) cur groups =
     (if cls_match k c then
        (case match_here (Star k # r) cs (consume c cur) groups of
           Some m \<Rightarrow> Some m
         | None \<Rightarrow> match_here r (c # cs) cur groups)
      else match_here r (c # cs) cur groups)"
| "match_here (LazyStar k # r) [] cur groups = match_here r [] cur groups"
| "match_here (LazyStar k # r) (c # cs) cur groups =
     (case match_here r (c # cs) cur groups of
        Some m \<Rightarrow> Some m
      | None \<Rightarrow>
          if cls_match k c then match_here (LazyStar k # r) cs (consume c cur) groups
          else None)"

text \<open>
  \<open>re.search(pattern, s)\<close>: the match at the leftmost position that has one, as the list
  of its groups (\<open>group(1)\<close> first); \<open>None\<close> when no position has a match.
\<close>

fun re_search :: "pattern \<Rightarrow> string \<Rightarrow> string list option" where
  "re_search p [] = match_here p [] None []"
| "re_search p (c # cs) =
     (case match_here p (c # cs) None [] of
        Some m \<Rightarrow> Some m
      | None \<Rightarrow> re_search p cs)"


text \<open>\<open>x+\<close>, a literal word, and a capturing group.\<close>

definition plus :: "cls \<Rightarrow> pattern" where
  "plus k = [One k, Star k]"

definition lits :: "string \<Rightarrow> pattern" where
  "lits w = map (\<lambda>c. One (Lit c)) w"

definition group :: "pattern \<Rightarrow> pattern" where
  "group p = GroupOpen # p @ [GroupClose]"

text \<open>\<open>m.group(i)\<close> for a group that took part in the match.\<close>

definition group_at :: "string list \<Rightarrow> nat \<Rightarrow> string" where
  "group_at m i = (if 1 \<le> i \<and> i \<le> length m then m ! (i - 1) else [])"

section \<open>Exceptions\<close>

text \<open>
  The exceptions the modelled code can raise. A function that can raise returns
  \<open>py_error + 'a\<close>, with \<open>Inl\<close> for the exception; \<open>and_then\<close> runs the next statement
  on a value and passes an exception on.
\<close>

datatype py_error = ValueError | AttributeError | TypeError | KeyError

definition and_then :: "py_error + 'a \<Rightarrow> ('a \<Rightarrow> py_error + 'b) \<Rightarrow> py_error + 'b" where
  "and_then r f = (case r of Inl e \<Rightarrow> Inl e | Inr x \<Rightarrow> f x)"

text \<open>
  \<open>int(s)\<close> as the parsers call it, on what a group of digits captured: the value of a
  non-empty string of decimal digits; \<open>ValueError\<close> on any other string. (Python's
  \<open>int\<close> accepts more, signs and surrounding blanks among them; no pattern here captures
  such a string.) CPython refuses a string of more than 4300 digits with \<open>ValueError\<close>
  (the default of \<open>sys.set_int_max_str_digits\<close>); leading zeros count.
\<close>

definition max_str_digits :: nat where
  "max_str_digits = 4300"

definition digit_value :: "char \<Rightarrow> int" where
  "digit_value c = int (of_char c) - 48"

definition py_int :: "string \<Rightarrow> py_error + int" where
  "py_int s =
     (if s \<noteq> [] \<and> list_all is_digit s \<and> length s \<le> max_str_digits
      then Inr (foldl (\<lambda>a c. 10 * a + digit_value c) 0 s)
      else Inl ValueError)"

section \<open>The Python adapter's test parser (python_adapter.py)\<close>

text \<open>The result dictionaries of the test parsers: the generic one, and the keys pytest adds.\<close>

record test_result =
  passed :: int
  failed :: int
  total :: int
  success :: bool

record pytest_result = test_result +
  skipped :: int
  coverage :: "int option"
  status :: string

text \<open>The variables of the loop over the lines.\<close>

record tally =
  t_passed :: int
  t_failed :: int
  t_skipped :: int
  t_coverage :: "int option"

definition tally0 :: tally where
  "tally0 = \<lparr>t_passed = 0, t_failed = 0, t_skipped = 0, t_coverage = None\<rparr>"

text \<open>\<open>(\d+)%\<close>\<close>

definition coverage_pattern :: pattern where
  "coverage_pattern = group (plus Digit) @ lits ''%''"

text \<open>\<open>=+\s*(\d+)\s+failed.*?(\d+)\s+passed.*?in\s+([\d.]+)s\<close>\<close>

definition summary_pattern :: pattern where
  "summary_pattern =
     plus (Lit CHR ''='') @ [Star Space] @ group (plus Digit) @ plus Space @ lits ''failed''
     @ [LazyStar AnyChar] @ group (plus Digit) @ plus Space @ lits ''passed''
     @ [LazyStar AnyChar] @ lits ''in'' @ plus Space @ group (plus DigitOrDot) @ lits ''s''"

text \<open>The body of the loop: one line updates the counters, then the coverage.\<close>

definition count_line :: "string \<Rightarrow> tally \<Rightarrow> tally" where
  "count_line line t =
     (if contains '' PASSED'' line \<or> contains ''::'' line \<and> contains ''PASSED'' line
        then t\<lparr>t_passed := t_passed t + 1\<rparr>
      else if contains '' FAILED'' line \<or> contains ''::'' line \<and> contains ''FAILED'' line
        then t\<lparr>t_failed := t_failed t + 1\<rparr>
      else if contains '' SKIPPED'' line \<or> contains ''::'' line \<and> contains ''SKIPPED'' line
        then t\<lparr>t_skipped := t_skipped t + 1\<rparr>
      else t)"

definition coverage_line :: "string \<Rightarrow> tally \<Rightarrow> py_error + tally" where
  "coverage_line line t =
     (if contains ''TOTAL'' line \<and> contains ''%'' line then
        (case re_search coverage_pattern line of
           Some coverage_match \<Rightarrow>
             and_then (py_int (group_at coverage_match 1))
               (\<lambda>n. Inr (t\<lparr>t_coverage := Some n\<rparr>))
         | None \<Rightarrow> Inr t)
      else Inr t)"

definition scan_line :: "string \<Rightarrow> tally \<Rightarrow> py_error + tally" where
  "scan_line line t = coverage_line line (count_line line t)"

fun scan_lines :: "string list \<Rightarrow> tally \<Rightarrow> py_error + tally" where
  "scan_lines [] t = Inr t"
| "scan_lines (line # lines) t = and_then (scan_line line t) (scan_lines lines)"

text \<open>The summary line, when the pattern finds one: \<open>(failed, passed)\<close>.\<close>

definition summary_counts :: "string \<Rightarrow> tally \<Rightarrow> py_error + int \<times> int" where
  "summary_counts output t =
     (case re_search summary_pattern output of
        Some summary_match \<Rightarrow>
          and_then (py_int (group_at summary_match 1)) (\<lambda>failed'.
          and_then (py_int (group_at summary_match 2)) (\<lambda>passed'.
          Inr (failed', passed')))
      | None \<Rightarrow> Inr (t_failed t, t_passed t))"

definition python_parse_test_output :: "string \<Rightarrow> py_error + pytest_result" where
  "python_parse_test_output output =
     and_then (scan_lines (split_on newline output) tally0) (\<lambda>t.
     and_then (summary_counts output t) (\<lambda>(failed', passed').
     Inr \<lparr>passed = passed', failed = failed',
          total = passed' + failed' + t_skipped t,
          success = (failed' = 0),
          skipped = t_skipped t,
          coverage = t_coverage t,
          status = (if failed' = 0 then ''PASS'' else ''FAIL'')\<rparr>))"

section \<open>The generic parsers (base.py)\<close>

text \<open>\<open>sum(1 for line in lines if cond(line))\<close>\<close>

definition count_lines :: "(string \<Rightarrow> bool) \<Rightarrow> string list \<Rightarrow> int" where
  "count_lines cond lines = sum_list (map (\<lambda>line. 1) (filter cond lines))"

text \<open>The check mark U+2713 and the ballot cross U+2717, in UTF-8.\<close>

definition check_mark :: string where
  "check_mark = [CHR 0xE2, CHR 0x9C, CHR 0x93]"

definition cross_mark :: string where
  "cross_mark = [CHR 0xE2, CHR 0x9C, CHR 0x97]"

definition base_parse_test_output :: "string \<Rightarrow> test_result" where
  "base_parse_test_output output =
     (let lines = split_on newline output;
          passed' = count_lines (\<lambda>line. contains ''PASSED'' line \<or> contains ''PASS'' line
                                      \<or> contains check_mark line) lines;
          failed' = count_lines (\<lambda>line. contains ''FAILED'' line \<or> contains ''FAIL'' line
                                      \<or> contains cross_mark line) lines
      in \<lparr>passed = passed', failed = failed', total = passed' + failed',
          success = (failed' = 0)\<rparr>)"

text \<open>The lint results: the generic keys, and the keys the Python adapter adds.\<close>

record lint_result =
  errors :: int
  warnings :: int
  total_issues :: int
  lint_success :: bool

record ruff_result = lint_result +
  issues_by_type :: "(string \<times> int) list"
  lint_status :: string

definition base_parse_lint_output :: "string \<Rightarrow> lint_result" where
  "base_parse_lint_output output =
     (let lines = split_on newline output;
          errors' = count_lines (\<lambda>line. contains ''error'' (lower line)) lines;
          warnings' = count_lines (\<lambda>line. contains ''warning'' (lower line)) lines
      in \<lparr>errors = errors', warnings = warnings', total_issues = errors' + warnings',
          lint_success = (errors' = 0)\<rparr>)"

record security_result =
  high :: int
  medium :: int
  low :: int
  security_total_issues :: int
  security_success :: bool

definition severity_line :: "string \<Rightarrow> string \<Rightarrow> bool" where
  "severity_line level line =
     (contains level (lower line)
      \<and> (contains ''severity'' (lower line) \<or> contains ''risk'' (lower line)))"

definition base_parse_security_output :: "string \<Rightarrow> security_result" where
  "base_parse_security_output output =
     (let lines = split_on newline output;
          high' = count_lines (severity_line ''high'') lines;
          medium' = count_lines (severity_line ''medium'') lines;
          low' = count_lines (severity_line ''low'') lines
      in \<lparr>high = high', medium = medium', low = low',
          security_total_issues = high' + medium' + low',
          security_success = (high' = 0)\<rparr>)"

section \<open>The Python adapter's lint parser\<close>

text \<open>\<open>d[k] = d.get(k, 0) + 1\<close> on a dictionary kept in insertion order.\<close>

fun bump_by :: "('k \<Rightarrow> 'k \<Rightarrow> bool) \<Rightarrow> 'k \<Rightarrow> ('k \<times> int) list \<Rightarrow> ('k \<times> int) list" where
  "bump_by eq k [] = [(k, 0 + 1)]"
| "bump_by eq k ((k', n) # kvs) =
     (if eq k' k then (k', n + 1) # kvs else (k', n) # bump_by eq k kvs)"

text \<open>\<open>[A-Z]\d{3}\<close> and \<open>([A-Z]\d{3})\<close>\<close>

definition code_pattern :: pattern where
  "code_pattern = [One Upper, One Digit, One Digit, One Digit]"

definition code_group_pattern :: pattern where
  "code_group_pattern = group code_pattern"

record lint_tally =
  l_errors :: int
  l_warnings :: int
  l_issues_by_type :: "(string \<times> int) list"

definition lint_line :: "string \<Rightarrow> lint_tally \<Rightarrow> lint_tally" where
  "lint_line line t =
     (if contains '':'' line \<and> re_search code_pattern line \<noteq> None then
        (case re_search code_group_pattern line of
           Some code_match \<Rightarrow>
             (let code = group_at code_match 1;
                  t' = t\<lparr>l_issues_by_type := bump_by (=) code (l_issues_by_type t)\<rparr>
              in if startswith code ''E'' \<or> startswith code ''F''
                 then t'\<lparr>l_errors := l_errors t' + 1\<rparr>
                 else t'\<lparr>l_warnings := l_warnings t' + 1\<rparr>)
         | None \<Rightarrow> t)
      else t)"

definition python_parse_lint_output :: "string \<Rightarrow> ruff_result" where
  "python_parse_lint_output output =
     (let t = fold lint_line (split_on newline output)
                \<lparr>l_errors = 0, l_warnings = 0, l_issues_by_type = []\<rparr>
      in \<lparr>errors = l_errors t, warnings = l_warnings t,
          total_issues = l_errors t + l_warnings t,
          lint_success = (l_errors t = 0),
          issues_by_type = l_issues_by_type t,
          lint_status = (if l_errors t = 0 then ''PASS'' else ''ISSUES'')\<rparr>)"

section \<open>The Python adapter's security parser\<close>

text \<open>
  The values \<open>json.loads\<close> builds. A JSON object is a dictionary with string keys, kept
  as an association list in which the first binding of a key counts. A JSON number with
  a fraction or an exponent (a Python \<open>float\<close>) has no counterpart here: the model covers
  the documents whose numbers are integers.
\<close>

datatype pyval =
    PNone
  | PBool bool
  | PInt int
  | PStr string
  | PList "pyval list"
  | PDict "(string \<times> pyval) list"

text \<open>\<open>obj.get(key, default)\<close>: only a dictionary has the method.\<close>

fun dict_get :: "pyval \<Rightarrow> string \<Rightarrow> pyval \<Rightarrow> py_error + pyval" where
  "dict_get (PDict kvs) key dflt =
     Inr (case map_of kvs key of Some v \<Rightarrow> v | None \<Rightarrow> dflt)"
| "dict_get v key dflt = Inl AttributeError"

text \<open>What \<open>for x in obj\<close> runs over: the items of a list, the keys of a dictionary, the
  characters of a string; nothing else is iterable.\<close>

fun py_iter :: "pyval \<Rightarrow> py_error + pyval list" where
  "py_iter (PList xs) = Inr xs"
| "py_iter (PDict kvs) = Inr (map (\<lambda>kv. PStr (fst kv)) kvs)"
| "py_iter (PStr s) = Inr (map (\<lambda>c. PStr [c]) s)"
| "py_iter v = Inl TypeError"

text \<open>The integer a value is as a number: \<open>bool\<close> is a subclass of \<open>int\<close>.\<close>

fun as_int :: "pyval \<Rightarrow> int option" where
  "as_int (PInt n) = Some n"
| "as_int (PBool b) = Some (if b then 1 else 0)"
| "as_int v = None"

text \<open>\<open>a + b\<close>\<close>

definition py_add :: "pyval \<Rightarrow> pyval \<Rightarrow> py_error + pyval" where
  "py_add a b =
     (case (as_int a, as_int b) of
        (Some x, Some y) \<Rightarrow> Inr (PInt (x + y))
      | _ \<Rightarrow>
        (case (a, b) of
           (PStr s, PStr t) \<Rightarrow> Inr (PStr (s @ t))
         | (PList xs, PList ys) \<Rightarrow> Inr (PList (xs @ ys))
         | _ \<Rightarrow> Inl TypeError))"

text \<open>\<open>v == n\<close> for an integer \<open>n\<close>\<close>

definition py_eq_int :: "pyval \<Rightarrow> int \<Rightarrow> bool" where
  "py_eq_int v n = (as_int v = Some n)"

text \<open>Dictionary keys: lists and dictionaries cannot be hashed; numbers that are equal
  are the same key.\<close>

fun hashable :: "pyval \<Rightarrow> bool" where
  "hashable (PList xs) = False"
| "hashable (PDict kvs) = False"
| "hashable v = True"

definition key_eq :: "pyval \<Rightarrow> pyval \<Rightarrow> bool" where
  "key_eq a b =
     (case (as_int a, as_int b) of
        (Some x, Some y) \<Rightarrow> x = y
      | (None, None) \<Rightarrow> a = b
      | _ \<Rightarrow> False)"

text \<open>The loop over \<open>results\<close>.\<close>

fun count_results :: "pyval list \<Rightarrow> (pyval \<times> int) list \<Rightarrow> py_error + (pyval \<times> int) list" where
  "count_results [] issues = Inr issues"
| "count_results (result # results) issues =
     and_then (dict_get result ''test_id'' (PStr ''unknown'')) (\<lambda>test_id.
       if hashable test_id then count_results results (bump_by key_eq test_id issues)
       else Inl TypeError)"

text \<open>
  The dictionary the Python adapter returns. From the JSON branch the counts are whatever
  values the document holds; from the text fallback they are integers, and the keys
  \<open>issues_by_type\<close> and \<open>status\<close> are absent (\<open>None\<close>).
\<close>

record bandit_result =
  bandit_high :: pyval
  bandit_medium :: pyval
  bandit_low :: pyval
  bandit_total_issues :: pyval
  bandit_issues_by_type :: "(pyval \<times> int) list option"
  bandit_success :: bool
  bandit_status :: "string option"

definition from_text :: "security_result \<Rightarrow> bandit_result" where
  "from_text r =
     \<lparr>bandit_high = PInt (high r), bandit_medium = PInt (medium r), bandit_low = PInt (low r),
      bandit_total_issues = PInt (security_total_issues r),
      bandit_issues_by_type = None,
      bandit_success = security_success r,
      bandit_status = None\<rparr>"

text \<open>
  \<open>PythonAdapter.parse_security_output\<close>. The decoder \<open>json.loads\<close> belongs to the
  standard library; what it makes of \<open>output\<close> is the first argument: \<open>None\<close> when it
  raises \<open>JSONDecodeError\<close>, the only exception the method catches.
\<close>

definition python_parse_security_output :: "pyval option \<Rightarrow> string \<Rightarrow> py_error + bandit_result" where
  "python_parse_security_output decoded output =
     (case decoded of
        None \<Rightarrow> Inr (from_text (base_parse_security_output output))
      | Some bandit_data \<Rightarrow>
          and_then (dict_get bandit_data ''metrics'' (PDict [])) (\<lambda>metrics.
          and_then (dict_get metrics ''_totals'' (PDict [])) (\<lambda>totals.
          and_then (dict_get totals ''SEVERITY.HIGH'' (PInt 0)) (\<lambda>high'.
          and_then (dict_get totals ''SEVERITY.MEDIUM'' (PInt 0)) (\<lambda>medium'.
          and_then (dict_get totals ''SEVERITY.LOW'' (PInt 0)) (\<lambda>low'.
          and_then (dict_get bandit_data ''results'' (PList [])) (\<lambda>results.
          and_then (py_iter results) (\<lambda>items.
          and_then (count_results items []) (\<lambda>issues.
          and_then (py_add high' medium') (\<lambda>sum2.
          and_then (py_add sum2 low') (\<lambda>total'.
          Inr \<lparr>bandit_high = high', bandit_medium = medium', bandit_low = low',
               bandit_total_issues = total',
               bandit_issues_by_type = Some issues,
               bandit_success = py_eq_int high' 0,
               bandit_status = Some (if py_eq_int high' 0 then ''CLEAR'' else ''ISSUES'')\<rparr>
          )))))))))))"

section \<open>Static heuristics (base.py, python_adapter.py)\<close>

text \<open>
  The argument of each heuristic is what \<open>file_path.read_text()\<close> gives: \<open>None\<close> when
  it raises (the file is missing, unreadable or not text), the contents otherwise. Each
  method catches every \<open>Exception\<close> of its body and then returns 0.
\<close>

definition base_complexity_keywords :: "string list" where
  "base_complexity_keywords =
     [''if'', ''elif'', ''else'', ''for'', ''while'', ''try'', ''except'', ''switch'', ''case'']"

definition base_estimate_complexity :: "string option \<Rightarrow> int" where
  "base_estimate_complexity file =
     (case file of
        None \<Rightarrow> 0
      | Some content \<Rightarrow>
          fold (\<lambda>line complexity.
                  fold (\<lambda>keyword c. if contains keyword line then c + 1 else c)
                    base_complexity_keywords complexity)
            (split_on newline content) 1)"

definition base_get_function_count :: "string option \<Rightarrow> int" where
  "base_get_function_count file =
     (case file of
        None \<Rightarrow> 0
      | Some content \<Rightarrow>
          fold (\<lambda>line function_count.
                  if list_ex (\<lambda>keyword. contains keyword line) [''def '', ''function '', ''func '']
                  then function_count + 1 else function_count)
            (split_on newline content) 0)"

definition python_complexity_keywords :: "string list" where
  "python_complexity_keywords =
     [''if '', ''elif '', ''else:'', ''for '', ''while '', ''try:'', ''except '',
      ''with '', ''and '', ''or '', ''lambda'', ''?'']"

definition python_estimate_complexity :: "string option \<Rightarrow> int" where
  "python_estimate_complexity file =
     (case file of
        None \<Rightarrow> 0
      | Some content \<Rightarrow>
          fold (\<lambda>line complexity.
                  let stripped = strip line in
                  fold (\<lambda>keyword c. if contains keyword stripped then c + 1 else c)
                    python_complexity_keywords complexity)
            (split_on newline content) 1)"

definition python_get_function_count :: "string option \<Rightarrow> int" where
  "python_get_function_count file =
     (case file of
        None \<Rightarrow> 0
      | Some content \<Rightarrow>
          fold (\<lambda>line function_count.
                  let stripped = strip line in
                  if startswith stripped ''def '' \<or> startswith stripped ''async def ''
                  then function_count + 1 else function_count)
            (split_on newline content) 0)"

text \<open>
  The estimate as the specification words it, for comparison with the loops: one for the
  base, and one for every occurrence of every keyword in every line, an occurrence being
  a position of the line at which the keyword starts.
\<close>

fun occurrences :: "string \<Rightarrow> string \<Rightarrow> nat" where
  "occurrences needle [] = (if needle = [] then 1 else 0)"
| "occurrences needle (c # cs) =
     (if startswith (c # cs) needle then 1 else 0) + occurrences needle cs"

definition complexity_per_occurrence :: "string list \<Rightarrow> string \<Rightarrow> int" where
  "complexity_per_occurrence keywords content =
     1 + (\<Sum>line\<leftarrow>split_on newline content. \<Sum>keyword\<leftarrow>keywords. int (occurrences keyword line))"

section \<open>The project type classifier (init.py)\<close>

text \<open>
  A template of the catalogue: its indicators and keywords, and of its configuration the
  language and the project type (the tool commands and metric policies play no part in
  the classification).
\<close>

record template =
  description :: string
  indicators :: "string list"
  template_keywords :: "string list"
  config_language :: string
  config_project_type :: string

definition PROJECT_TEMPLATES :: "(string \<times> template) list" where
  "PROJECT_TEMPLATES =
     [(''python_ml'',
         \<lparr>description = ''Python ML/AI project with scikit-learn, tensorflow, etc.'',
          indicators = [''requirements.txt'', ''setup.py'', ''pyproject.toml''],
          template_keywords = [''tensorflow'', ''torch'', ''sklearn'', ''numpy'', ''pandas'', ''jupyter''],
          config_language = ''python'', config_project_type = ''ml''\<rparr>),
      (''python_api'',
         \<lparr>description = ''Python API/web service (FastAPI, Django, Flask)'',
          indicators = [''requirements.txt'', ''app.py'', ''main.py'', ''manage.py''],
          template_keywords = [''fastapi'', ''django'', ''flask'', ''uvicorn'', ''gunicorn''],
          config_language = ''python'', config_project_type = ''api''\<rparr>),
      (''typescript_node'',
         \<lparr>description = ''TypeScript/Node.js project (API, CLI, library)'',
          indicators = [''package.json'', ''tsconfig.json''],
          template_keywords = [''typescript'', ''node'', ''express'', ''nestjs''],
          config_language = ''typescript'', config_project_type = ''node''\<rparr>),
      (''react_frontend'',
         \<lparr>description = ''React frontend application'',
          indicators = [''package.json'', ''src/App.tsx'', ''src/App.jsx'', ''public/index.html''],
          template_keywords = [''react'', ''next'', ''vite'', ''webpack''],
          config_language = ''typescript'', config_project_type = ''frontend''\<rparr>),
      (''go_service'',
         \<lparr>description = ''Go microservice or CLI application'',
          indicators = [''go.mod'', ''main.go''],
          template_keywords = [''gin'', ''echo'', ''chi'', ''gorilla'', ''grpc''],
          config_language = ''go'', config_project_type = ''service''\<rparr>),
      (''rust_project'',
         \<lparr>description = ''Rust application or library'',
          indicators = [''Cargo.toml'', ''src/main.rs'', ''src/lib.rs''],
          template_keywords = [''tokio'', ''serde'', ''clap'', ''actix'', ''warp''],
          config_language = ''rust'', config_project_type = ''application''\<rparr>)]"

text \<open>
  The file system under the project directory: a file with its text (\<open>None\<close> when
  reading it raises) or a directory with its named entries. A project is an existing
  directory: the string of its path, and its entries.
\<close>

datatype node = File "string option" | Dir "(string \<times> node) list"

record project =
  project_path :: string
  entries :: "(string \<times> node) list"

text \<open>\<open>os.sep\<close> and \<open>os.path.join\<close> of a POSIX system.\<close>

definition sep :: char where
  "sep = CHR ''/''"

definition path_join :: "string \<Rightarrow> string \<Rightarrow> string" where
  "path_join a b =
     (if startswith b [sep] then b
      else if a = [] \<or> last a = sep then a @ b
      else a @ [sep] @ b)"

fun is_file :: "node \<Rightarrow> bool" where
  "is_file (File text) = True"
| "is_file (Dir es) = False"

text \<open>
  \<open>os.walk(top)\<close>, top down: for the directory and each directory below it, the path
  string (\<open>root\<close> in the source) and the names \<open>files\<close> of the entries that are not directories.
\<close>

fun os_walk :: "string \<Rightarrow> node \<Rightarrow> (string \<times> string list) list" where
  "os_walk dirpath (File text) = []"
| "os_walk dirpath (Dir es) =
     (dirpath, map fst (filter (\<lambda>e. is_file (snd e)) es))
     # concat (map (\<lambda>e. os_walk (path_join dirpath (fst e)) (snd e)) es)"

text \<open>\<open>s.count(os.sep)\<close>\<close>

definition count_sep :: "string \<Rightarrow> int" where
  "count_sep s = int (length (filter (\<lambda>c. c = sep) s))"

definition ignore_patterns :: "string list" where
  "ignore_patterns = [''.git'', ''node_modules'', ''__pycache__'', ''.venv'']"

text \<open>The first loop: the names of the files of the directories that are not skipped.\<close>

definition files_in_project :: "project \<Rightarrow> string list" where
  "files_in_project p =
     fold (\<lambda>(dirpath, files) found.
             if list_ex (\<lambda>ignore. contains ignore dirpath) ignore_patterns then found
             else if count_sep dirpath - count_sep (project_path p) > 3 then found
             else found @ files)
       (os_walk (project_path p) (Dir (entries p))) []"

definition package_files :: "string list" where
  "package_files = [''package.json'', ''requirements.txt'', ''Cargo.toml'', ''go.mod'', ''pyproject.toml'']"

text \<open>
  The second loop: the templates one of whose keywords occurs in a package file at the
  root. A package file that does not exist is passed over; one that cannot be read (a
  directory among them) raises, and the bare \<open>except\<close> passes over it as well.
\<close>

definition keywords_in :: "string \<Rightarrow> string list \<Rightarrow> string list" where
  "keywords_in content found =
     fold (\<lambda>(template_name, template) found1.
             fold (\<lambda>keyword found2.
                     if contains keyword content then List.insert template_name found2
                     else found2)
               (template_keywords template) found1)
       PROJECT_TEMPLATES found"

definition keywords_found :: "project \<Rightarrow> string list" where
  "keywords_found p =
     fold (\<lambda>file_name found.
             case map_of (entries p) file_name of
               None \<Rightarrow> found
             | Some (Dir es) \<Rightarrow> found
             | Some (File None) \<Rightarrow> found
             | Some (File (Some text)) \<Rightarrow> keywords_in (lower text) found)
       package_files []"

text \<open>The third loop: the dictionary \<open>scores\<close>, in the order of the catalogue.\<close>

definition template_score :: "string list \<Rightarrow> string list \<Rightarrow> string \<Rightarrow> template \<Rightarrow> int" where
  "template_score files found template_name template =
     (let score = fold (\<lambda>indicator score. if indicator \<in> set files then score + 3 else score)
                    (indicators template) 0
      in if template_name \<in> set found then score + 5 else score)"

definition scores :: "project \<Rightarrow> (string \<times> int) list" where
  "scores p =
     map (\<lambda>(template_name, template).
            (template_name, template_score (files_in_project p) (keywords_found p) template_name template))
       PROJECT_TEMPLATES"

text \<open>\<open>max\<close> over a non-empty sequence keeps the first of the greatest items.\<close>

fun first_max :: "string \<times> int \<Rightarrow> (string \<times> int) list \<Rightarrow> string \<times> int" where
  "first_max best [] = best"
| "first_max best (x # xs) = first_max (if snd x > snd best then x else best) xs"

definition detect_project_type :: "project \<Rightarrow> string" where
  "detect_project_type p =
     (case scores p of
        [] \<Rightarrow> ''python_api''
      | s # ss \<Rightarrow>
          if foldl max (snd s) (map snd ss) > 0 then fst (first_max s ss)
          else ''python_api'')"

section \<open>The adapters' language\<close>

text \<open>
  Modelled from the spec: the \<open>language\<close> property of \<open>TypeScriptAdapter\<close>,
  \<open>GoAdapter\<close> and \<open>RustAdapter\<close>, whose modules (typescript_adapter.py,
  go_adapter.py, rust_adapter.py) are missing; the spec gives each adapter the identifier
  of the language it is the adapter of. \<open>PythonAdapter.language\<close> is as in
  python_adapter.py.
\<close>

fun language :: "adapter \<Rightarrow> string" where
  "language PythonAdapter = ''python''"
| "language TypeScriptAdapter = ''typescript''"
| "language GoAdapter = ''go''"
| "language RustAdapter = ''rust''"

section \<open>The metric gate evaluator\<close>

record MetricPolicy =
  targetValue :: real
  capValue :: "real option"
  absolute :: bool
  unit :: string

text \<open>
  Modelled from the spec: the metric gate evaluator (section 4.6), which is in none of
  the source files at hand. Of its result the verdict \<open>pass\<close> is modelled. With an absolute
  policy the measured value passes when it meets or exceeds the target. For a relative
  policy the spec leaves the favourable direction to the metric; that rule is the
  parameter \<open>relative\<close>. Measured values and targets are real numbers.
\<close>

definition evaluate :: "(real \<Rightarrow> MetricPolicy \<Rightarrow> bool) \<Rightarrow> real \<Rightarrow> MetricPolicy \<Rightarrow> bool" where
  "evaluate relative measuredValue policy =
     (if absolute policy then targetValue policy \<le> measuredValue
      else relative measuredValue policy)"

section \<open>Predicates of the proofs\<close>

text \<open>An atom that is not a group bracket.\<close>

fun plain :: "atom \<Rightarrow> bool" where
  "plain GroupOpen = False"
| "plain GroupClose = False"
| "plain a = True"

text \<open>The counters of the test parser's loop are not negative.\<close>

definition tally_ok :: "tally \<Rightarrow> bool" where
  "tally_ok t = (0 \<le> t_passed t \<and> 0 \<le> t_failed t \<and> 0 \<le> t_skipped t
                 \<and> (case t_coverage t of None \<Rightarrow> True | Some n \<Rightarrow> 0 \<le> n))"

text \<open>No file or directory name under the project has a path separator in it.\<close>

fun plain_names :: "node \<Rightarrow> bool" where
  "plain_names (File content) = True"
| "plain_names (Dir es) = list_all (\<lambda>e. sep \<notin> set (fst e) \<and> plain_names (snd e)) es"

section \<open>Facts about strings\<close>

lemma startswith_prefix: "startswith s p \<longleftrightarrow> prefix p s"
  by (induction s p rule: startswith.induct) auto

lemma contains_sublist: "contains needle hay \<longleftrightarrow> sublist needle hay"
  by (induction hay) (auto simp: startswith_prefix sublist_Cons_right)

lemma split_on_length: "l \<in> set (split_on d s) \<Longrightarrow> length l \<le> length s"
proof (induction s arbitrary: l)
  case Nil
  then show ?case by simp
next
  case (Cons c s)
  show ?case
  proof (cases "c = d")
    case True
    with Cons show ?thesis by fastforce
  next
    case False
    obtain l0 ls where sp: "split_on d s = l0 # ls"
      by (cases "split_on d s") (cases s, auto split: if_splits list.splits)
    with False Cons.prems have "l = c # l0 \<or> l \<in> set ls" by auto
    moreover have "length l0 \<le> length s" using Cons.IH [of l0] sp by simp
    moreover have "l \<in> set ls \<Longrightarrow> length l \<le> length s" using Cons.IH [of l] sp by simp
    ultimately show ?thesis by auto
  qed
qed

section \<open>The registry resolves every name\<close>

text \<open>
  Claim C1. \<open>get_language_adapter\<close> is a total function of the language name with no
  failing branch. With \<open>n\<close> the lower-cased name: an exact match of \<open>n\<close> against the
  known languages decides first (python; typescript and javascript; go; rust); on a miss,
  in this order, \<open>n\<close> containing "python" gives the Python adapter, containing one of
  "typescript", "javascript", "node", "react" the TypeScript adapter, containing "go" the
  Go adapter, containing "rust" the Rust adapter, and anything else the Python adapter.
  Containment is stated with \<open>sublist\<close>: \<open>n = u @ k @ v\<close> for some \<open>u\<close>, \<open>v\<close>.
\<close>

theorem get_language_adapter_resolve:
  "get_language_adapter name =
     (let n = lower name in
      if n = ''python'' then PythonAdapter
      else if n = ''typescript'' \<or> n = ''javascript'' then TypeScriptAdapter
      else if n = ''go'' then GoAdapter
      else if n = ''rust'' then RustAdapter
      else if sublist ''python'' n then PythonAdapter
      else if sublist ''typescript'' n \<or> sublist ''javascript'' n
              \<or> sublist ''node'' n \<or> sublist ''react'' n then TypeScriptAdapter
      else if sublist ''go'' n then GoAdapter
      else if sublist ''rust'' n then RustAdapter
      else PythonAdapter)"
  by (simp add: get_language_adapter_def ADAPTERS_def Let_def contains_sublist)

section \<open>Exceptions and digits\<close>

lemma and_then_Inr [simp]: "and_then (Inr x) f = f x"
  by (simp add: and_then_def)

lemma and_then_Inl [simp]: "and_then (Inl e) f = Inl e"
  by (simp add: and_then_def)

lemma and_then_InrD:
  "and_then r f = Inr y \<Longrightarrow> \<exists>x. r = Inr x \<and> f x = Inr y"
  by (cases r) auto

lemma digit_value_nonneg: "is_digit c \<Longrightarrow> 0 \<le> digit_value c"
  by (auto simp: is_digit_def digit_value_def)

lemma foldl_digits_nonneg:
  "list_all is_digit s \<Longrightarrow> 0 \<le> a \<Longrightarrow> 0 \<le> foldl (\<lambda>a c. 10 * a + digit_value c) a s"
proof (induction s arbitrary: a)
  case Nil
  then show ?case by simp
next
  case (Cons c s)
  then have "0 \<le> 10 * a + digit_value c"
    using digit_value_nonneg [of c] by simp
  with Cons show ?case by simp
qed

lemma py_int_nonneg: "py_int s = Inr n \<Longrightarrow> 0 \<le> n"
  by (auto simp: py_int_def foldl_digits_nonneg split: if_splits)

lemma py_int_digits:
  "s \<noteq> [] \<Longrightarrow> list_all is_digit s \<Longrightarrow> length s \<le> max_str_digits \<Longrightarrow> \<exists>n. py_int s = Inr n"
  by (simp add: py_int_def)

section \<open>What a match captures\<close>

lemma groups_prefix: "match_here p s cur g = Some m \<Longrightarrow> prefix g m"
proof (induction p s cur g rule: match_here.induct)
  case (3 r s cur groups)
  then show ?case by (auto dest: append_prefixD)
qed (auto split: if_splits option.splits)

lemma one_passes:
  "match_here (One k # r) s cur g = Some m \<Longrightarrow>
   \<exists>s' cur'. length s' \<le> length s \<and> match_here r s' cur' g = Some m"
  by (cases s) (auto split: if_splits intro: le_SucI)

lemma star_passes:
  "match_here (Star k # r) s cur g = Some m \<Longrightarrow>
   \<exists>s' cur'. length s' \<le> length s \<and> match_here r s' cur' g = Some m"
proof (induction s arbitrary: cur)
  case Nil
  then show ?case by auto
next
  case (Cons c s)
  show ?case
  proof (cases "cls_match k c \<and> match_here (Star k # r) s (consume c cur) g \<noteq> None")
    case True
    then have "match_here (Star k # r) s (consume c cur) g = Some m"
      using Cons.prems by auto
    from Cons.IH [OF this] show ?thesis by (auto intro: le_SucI)
  next
    case False
    then have "match_here r (c # s) cur g = Some m"
      using Cons.prems by (auto split: if_splits option.splits)
    then show ?thesis by blast
  qed
qed

lemma lazy_passes:
  "match_here (LazyStar k # r) s cur g = Some m \<Longrightarrow>
   \<exists>s' cur'. length s' \<le> length s \<and> match_here r s' cur' g = Some m"
proof (induction s arbitrary: cur)
  case Nil
  then show ?case by auto
next
  case (Cons c s)
  show ?case
  proof (cases "match_here r (c # s) cur g")
    case (Some m')
    with Cons.prems have "match_here r (c # s) cur g = Some m" by simp
    then show ?thesis by blast
  next
    case None
    with Cons.prems have "match_here (LazyStar k # r) s (consume c cur) g = Some m"
      by (auto split: if_splits)
    from Cons.IH [OF this] show ?thesis by (auto intro: le_SucI)
  qed
qed

lemma plain_passes:
  "list_all plain ps \<Longrightarrow> match_here (ps @ r) s cur g = Some m \<Longrightarrow>
   \<exists>s' cur'. length s' \<le> length s \<and> match_here r s' cur' g = Some m"
proof (induction ps arbitrary: s cur)
  case Nil
  then show ?case by auto
next
  case (Cons a ps)
  then obtain s1 cur1 where "length s1 \<le> length s" "match_here (ps @ r) s1 cur1 g = Some m"
    by (cases a) (auto dest: one_passes star_passes lazy_passes)
  with Cons.IH [of s1 cur1] Cons.prems(1) show ?case
    by (auto intro: order_trans)
qed

lemma star_digits_close:
  "match_here (Star Digit # GroupClose # r) s (Some acc) g = Some m \<Longrightarrow>
   acc \<noteq> [] \<Longrightarrow> list_all is_digit acc \<Longrightarrow>
   \<exists>d s'. d \<noteq> [] \<and> list_all is_digit d \<and> length d \<le> length acc + length s
          \<and> length s' \<le> length s \<and> match_here r s' None (g @ [d]) = Some m"
proof (induction s arbitrary: acc)
  case Nil
  then show ?case by auto
next
  case (Cons c s)
  show ?case
  proof (cases "cls_match Digit c \<and> match_here (Star Digit # GroupClose # r) s (Some (acc @ [c])) g \<noteq> None")
    case True
    then have "match_here (Star Digit # GroupClose # r) s (Some (acc @ [c])) g = Some m"
      using Cons.prems(1) by (auto simp: consume_def)
    moreover have "acc @ [c] \<noteq> []" "list_all is_digit (acc @ [c])"
      using True Cons.prems by auto
    ultimately obtain d s' where d: "d \<noteq> []" "list_all is_digit d"
      "match_here r s' None (g @ [d]) = Some m"
      and "length d \<le> length (acc @ [c]) + length s" "length s' \<le> length s"
      using Cons.IH by blast
    then have "length d \<le> length acc + length (c # s)" "length s' \<le> length (c # s)"
      by simp_all
    with d show ?thesis by blast
  next
    case False
    then have "match_here r (c # s) None (g @ [acc]) = Some m"
      using Cons.prems(1) by (auto simp: consume_def split: if_splits option.splits)
    moreover have "length acc \<le> length acc + length (c # s)" "length (c # s) \<le> length (c # s)"
      by simp_all
    ultimately show ?thesis using Cons.prems(2,3) by blast
  qed
qed

lemma digit_group:
  assumes "match_here (group (plus Digit) @ r) s cur g = Some m"
  shows "\<exists>d s'. d \<noteq> [] \<and> list_all is_digit d \<and> length d \<le> length s
            \<and> length s' \<le> length s \<and> match_here r s' None (g @ [d]) = Some m"
proof (cases s)
  case Nil
  with assms show ?thesis by (simp add: group_def plus_def)
next
  case (Cons c cs)
  with assms have "is_digit c"
    and "match_here (Star Digit # GroupClose # r) cs (Some [c]) g = Some m"
    by (auto simp: group_def plus_def consume_def split: if_splits)
  then obtain d s' where d: "d \<noteq> []" "list_all is_digit d"
      "match_here r s' None (g @ [d]) = Some m"
      and "length d \<le> length [c] + length cs" "length s' \<le> length cs"
    using star_digits_close [of r cs "[c]" g m] by auto
  then have "length d \<le> length s" "length s' \<le> length s"
    using Cons by simp_all
  with d show ?thesis by blast
qed

lemma re_search_Some:
  "re_search p s = Some m \<Longrightarrow> \<exists>s'. length s' \<le> length s \<and> match_here p s' None [] = Some m"
proof (induction s)
  case Nil
  then show ?case by auto
next
  case (Cons c s)
  show ?case
  proof (cases "match_here p (c # s) None []")
    case None
    with Cons show ?thesis by (auto intro: le_SucI)
  next
    case (Some m')
    with Cons.prems have "match_here p (c # s) None [] = Some m" by simp
    moreover have "length (c # s) \<le> length (c # s)" by simp
    ultimately show ?thesis by blast
  qed
qed

lemma coverage_groups:
  assumes "re_search coverage_pattern s = Some m"
  shows "group_at m 1 \<noteq> [] \<and> list_all is_digit (group_at m 1) \<and> length (group_at m 1) \<le> length s"
proof -
  from assms obtain s1 where s1: "length s1 \<le> length s"
    and "match_here (group (plus Digit) @ lits ''%'') s1 None [] = Some m"
    unfolding coverage_pattern_def by (blast dest: re_search_Some)
  then obtain d s2 where d: "d \<noteq> []" "list_all is_digit d" "length d \<le> length s1"
    and "match_here (lits ''%'') s2 None ([] @ [d]) = Some m"
    by (blast dest: digit_group)
  then have "prefix [d] m"
    using groups_prefix by fastforce
  then have "group_at m 1 = d"
    by (auto simp: group_at_def prefix_def)
  with d s1 show ?thesis by simp
qed

lemma summary_groups:
  assumes "re_search summary_pattern s = Some m"
  shows "group_at m 1 \<noteq> [] \<and> list_all is_digit (group_at m 1) \<and> length (group_at m 1) \<le> length s
       \<and> group_at m 2 \<noteq> [] \<and> list_all is_digit (group_at m 2) \<and> length (group_at m 2) \<le> length s"
proof -
  define r3 where "r3 = [LazyStar AnyChar] @ lits ''in'' @ plus Space @ group (plus DigitOrDot) @ lits ''s''"
  define r2 where "r2 = (plus Space @ lits ''failed'' @ [LazyStar AnyChar])"
  define r1 where "r1 = plus (Lit CHR ''='') @ [Star Space]"
  have p: "summary_pattern =
      r1 @ (group (plus Digit) @ (r2 @ (group (plus Digit) @ ((plus Space @ lits ''passed'') @ r3))))"
    by (simp add: summary_pattern_def r1_def r2_def r3_def)
  from assms obtain s0 where s0: "length s0 \<le> length s"
    and "match_here summary_pattern s0 None [] = Some m"
    by (blast dest: re_search_Some)
  then have "match_here (r1 @ (group (plus Digit) @ (r2 @ (group (plus Digit) @ ((plus Space @ lits ''passed'') @ r3))))) s0 None [] = Some m"
    by (simp only: p)
  moreover have "list_all plain r1" by (simp add: r1_def plus_def)
  ultimately obtain s1 c1 where s1: "length s1 \<le> length s0" and
    "match_here (group (plus Digit) @ (r2 @ (group (plus Digit) @ ((plus Space @ lits ''passed'') @ r3)))) s1 c1 [] = Some m"
    by (blast dest: plain_passes)
  then obtain d1 s2 where d1: "d1 \<noteq> []" "list_all is_digit d1" "length d1 \<le> length s1"
    and s2: "length s2 \<le> length s1"
    and "match_here (r2 @ (group (plus Digit) @ ((plus Space @ lits ''passed'') @ r3))) s2 None ([] @ [d1]) = Some m"
    by (blast dest: digit_group)
  moreover have "list_all plain r2" by (simp add: r2_def plus_def lits_def)
  ultimately obtain s3 c3 where s3: "length s3 \<le> length s2" and
    "match_here (group (plus Digit) @ ((plus Space @ lits ''passed'') @ r3)) s3 c3 ([] @ [d1]) = Some m"
    by (blast dest: plain_passes)
  then obtain d2 s4 where d2: "d2 \<noteq> []" "list_all is_digit d2" "length d2 \<le> length s3"
    and "match_here ((plus Space @ lits ''passed'') @ r3) s4 None (([] @ [d1]) @ [d2]) = Some m"
    by (blast dest: digit_group)
  then have "prefix [d1, d2] m"
    using groups_prefix by fastforce
  then have "group_at m 1 = d1" "group_at m 2 = d2"
    by (auto simp: group_at_def prefix_def)
  with d1 d2 s0 s1 s2 s3 show ?thesis by simp
qed

section \<open>The test parser's results\<close>

lemma count_line_ok: "tally_ok t \<Longrightarrow> tally_ok (count_line line t)"
  by (simp add: tally_ok_def count_line_def)

lemma coverage_line_ok:
  assumes "coverage_line line t = Inr t'"
  shows "t_passed t' = t_passed t \<and> t_failed t' = t_failed t \<and> t_skipped t' = t_skipped t
         \<and> (tally_ok t \<longrightarrow> tally_ok t')"
proof (cases "contains ''TOTAL'' line \<and> contains ''%'' line")
  case False
  with assms show ?thesis by (auto simp: coverage_line_def)
next
  case True
  show ?thesis
  proof (cases "re_search coverage_pattern line")
    case None
    with True assms show ?thesis by (simp add: coverage_line_def)
  next
    case (Some m)
    with True assms obtain n where "py_int (group_at m 1) = Inr n" "t' = t\<lparr>t_coverage := Some n\<rparr>"
      by (auto simp: coverage_line_def dest!: and_then_InrD)
    then show ?thesis
      using py_int_nonneg [of "group_at m 1" n] by (simp add: tally_ok_def)
  qed
qed

lemma coverage_line_short:
  assumes "length line \<le> max_str_digits"
  shows "\<exists>t'. coverage_line line t = Inr t'"
proof (cases "re_search coverage_pattern line")
  case None
  then show ?thesis by (simp add: coverage_line_def)
next
  case (Some m)
  from coverage_groups [OF Some] assms obtain n where "py_int (group_at m 1) = Inr n"
    using py_int_digits [of "group_at m 1"] by auto
  with Some show ?thesis by (simp add: coverage_line_def)
qed

lemma scan_lines_ok:
  "scan_lines lines t = Inr t' \<Longrightarrow> tally_ok t \<Longrightarrow> tally_ok t'"
proof (induction lines arbitrary: t)
  case Nil
  then show ?case by simp
next
  case (Cons line lines)
  from Cons.prems(1) obtain t1 where t1: "scan_line line t = Inr t1" "scan_lines lines t1 = Inr t'"
    by (auto dest!: and_then_InrD)
  then have "tally_ok t1"
    using coverage_line_ok [of line "count_line line t" t1] count_line_ok [OF Cons.prems(2)]
    by (simp add: scan_line_def)
  with t1(2) show ?case by (rule Cons.IH)
qed

lemma scan_lines_short:
  "list_all (\<lambda>line. length line \<le> max_str_digits) lines \<Longrightarrow> \<exists>t'. scan_lines lines t = Inr t'"
proof (induction lines arbitrary: t)
  case Nil
  then show ?case by simp
next
  case (Cons line lines)
  then obtain t1 where "scan_line line t = Inr t1"
    using coverage_line_short [of line "count_line line t"] by (auto simp: scan_line_def)
  moreover obtain t2 where "scan_lines lines t1 = Inr t2"
    using Cons by auto
  ultimately show ?case by simp
qed

lemma summary_counts_ok:
  assumes "summary_counts output t = Inr (f, p)" and "tally_ok t"
  shows "0 \<le> f \<and> 0 \<le> p"
proof (cases "re_search summary_pattern output")
  case None
  with assms show ?thesis by (simp add: summary_counts_def tally_ok_def)
next
  case (Some m)
  with assms(1) have "py_int (group_at m 1) = Inr f" "py_int (group_at m 2) = Inr p"
    by (auto simp: summary_counts_def dest!: and_then_InrD)
  then show ?thesis by (simp add: py_int_nonneg)
qed

lemma summary_counts_short:
  assumes "length output \<le> max_str_digits"
  shows "\<exists>f p. summary_counts output t = Inr (f, p)"
proof (cases "re_search summary_pattern output")
  case None
  then show ?thesis by (simp add: summary_counts_def)
next
  case (Some m)
  from summary_groups [OF Some] assms obtain f p where
    "py_int (group_at m 1) = Inr f" "py_int (group_at m 2) = Inr p"
    using py_int_digits [of "group_at m 1"] py_int_digits [of "group_at m 2"] by auto
  with Some show ?thesis by (simp add: summary_counts_def)
qed

lemma tally0_ok: "tally_ok tally0"
  by (simp add: tally_ok_def tally0_def)

lemma python_parse_test_output_result:
  assumes "python_parse_test_output output = Inr r"
  shows "\<exists>t f p. scan_lines (split_on newline output) tally0 = Inr t \<and> tally_ok t
     \<and> summary_counts output t = Inr (f, p) \<and> 0 \<le> f \<and> 0 \<le> p
     \<and> r = \<lparr>passed = p, failed = f, total = p + f + t_skipped t, success = (f = 0),
              skipped = t_skipped t, coverage = t_coverage t,
              status = (if f = 0 then ''PASS'' else ''FAIL'')\<rparr>"
proof -
  from assms obtain t where t: "scan_lines (split_on newline output) tally0 = Inr t"
    and "and_then (summary_counts output t) (\<lambda>(failed', passed').
     Inr \<lparr>passed = passed', failed = failed',
          total = passed' + failed' + t_skipped t,
          success = (failed' = 0),
          skipped = t_skipped t,
          coverage = t_coverage t,
          status = (if failed' = 0 then ''PASS'' else ''FAIL'')\<rparr>) = Inr r"
    unfolding python_parse_test_output_def by (blast dest: and_then_InrD)
  then obtain f p where fp: "summary_counts output t = Inr (f, p)"
    and r: "r = \<lparr>passed = p, failed = f, total = p + f + t_skipped t, success = (f = 0),
              skipped = t_skipped t, coverage = t_coverage t,
              status = (if f = 0 then ''PASS'' else ''FAIL'')\<rparr>"
    by (auto dest!: and_then_InrD)
  have ok: "tally_ok t"
    using scan_lines_ok [OF t tally0_ok] .
  from summary_counts_ok [OF fp ok] t ok fp r show ?thesis by blast
qed

lemma python_parse_test_output_returns:
  assumes "length output \<le> max_str_digits"
  shows "\<exists>r. python_parse_test_output output = Inr r"
proof -
  have "list_all (\<lambda>line. length line \<le> max_str_digits) (split_on newline output)"
    using split_on_length [of _ newline "output"] assms by (fastforce simp: list_all_iff)
  then obtain t where "scan_lines (split_on newline output) tally0 = Inr t"
    using scan_lines_short by blast
  moreover obtain f p where "summary_counts output t = Inr (f, p)"
    using summary_counts_short [OF assms] by blast
  ultimately show ?thesis
    by (simp add: python_parse_test_output_def)
qed

lemmas pattern_defs = summary_pattern_def coverage_pattern_def plus_def lits_def group_def
lemmas class_defs = is_digit_def is_space_def ascii_spaces_def is_upper_def upper_letters_def
  newline_def consume_def










text \<open>
  Why the amended claim asks for the leftmost match to start at the banner: an earlier
  \<open>=\<close> can start an earlier match, whose numbers are then the ones returned.
\<close>

lemma earlier_banner_first:
  "python_parse_test_output ''= 7 failed == 2 failed, 5 passed in 1.23s'' =
     Inr \<lparr>passed = 5, failed = 7, total = 12, success = False,
          skipped = 0, coverage = None, status = ''FAIL''\<rparr>"
  by (simp add: python_parse_test_output_def summary_counts_def scan_line_def count_line_def
      coverage_line_def tally0_def group_at_def py_int_def digit_value_def max_str_digits_def
      pattern_defs class_defs)

text \<open>
  Why the amended claim asks for the loop over the lines to raise no error: a coverage
  figure of more than 4300 digits makes \<open>int\<close> raise \<open>ValueError\<close>, which nothing
  catches.
\<close>

lemma split_on_no_sep: "d \<notin> set s \<Longrightarrow> split_on d s = [s]"
  by (induction s) auto

lemma star_digits_run:
  assumes "is_digit d" and "\<not> is_digit c" and "d \<noteq> e"
  shows "match_here (Star Digit # GroupClose # One (Lit e) # r) (replicate j d @ c # cs) (Some acc) g
         = match_here (One (Lit e) # r) (c # cs) None (g @ [acc @ replicate j d])"
proof (induction j arbitrary: acc)
  case 0
  from assms(2) show ?case by simp
next
  case (Suc j)
  have "match_here (Star Digit # GroupClose # One (Lit e) # r) (replicate j d @ c # cs)
          (Some (acc @ [d])) g
        = match_here (One (Lit e) # r) (c # cs) None (g @ [acc @ replicate (Suc j) d])"
    using Suc.IH [of "acc @ [d]"] by (simp add: replicate_app_Cons_same)
  with assms(1,3) show ?case
    by (simp add: consume_def split: option.split)
qed

lemma coverage_digits_over_limit:
  assumes "max_str_digits < n"
  shows "python_parse_test_output (''TOTAL '' @ replicate n CHR ''1'' @ ''%'') = Inl ValueError"
proof -
  define line where "line = ''TOTAL '' @ replicate n CHR ''1'' @ ''%''"
  obtain j where n: "n = Suc j" using assms by (cases n) auto
  have "newline \<notin> set line"
    by (auto simp: line_def newline_def)
  then have lines: "split_on newline line = [line]"
    by (rule split_on_no_sep)
  have total: "contains ''TOTAL'' line"
    by (simp add: line_def)
  have "sublist ''%'' line"
    unfolding sublist_def line_def by (intro exI [of _ "''TOTAL '' @ replicate n CHR ''1''"] exI [of _ "[]"]) simp
  then have percent: "contains ''%'' line"
    by (simp add: contains_sublist)
  have run: "match_here (Star Digit # GroupClose # One (Lit CHR ''%'') # []) (replicate j CHR ''1'' @ CHR ''%'' # [])
          (Some ''1'') [] = Some [''1'' @ replicate j CHR ''1'']"
    by (subst star_digits_run) (simp_all add: is_digit_def)
  have found: "re_search coverage_pattern line = Some [replicate n CHR ''1'']"
    using run by (simp add: line_def n pattern_defs class_defs)
  have "py_int (replicate n CHR ''1'') = Inl ValueError"
    using assms by (simp add: py_int_def)
  then have "coverage_line line t = Inl ValueError" for t
    using total percent found by (simp add: coverage_line_def group_at_def)
  then show ?thesis
    unfolding line_def [symmetric]
    by (simp add: python_parse_test_output_def lines scan_line_def)
qed

text \<open>
  Claim C9. Whenever the parser returns a result, the loop over the lines has returned
  its counters, and \<open>skipped\<close> and \<open>coverage\<close> of the result are those of the loop,
  whether or not the summary pattern matched and replaced \<open>passed\<close> and \<open>failed\<close>.
\<close>

theorem python_parse_test_output_frame:
  assumes "python_parse_test_output output = Inr r"
  shows "\<exists>t. scan_lines (split_on newline output) tally0 = Inr t
           \<and> skipped r = t_skipped t \<and> coverage r = t_coverage t"
  using python_parse_test_output_result [OF assms] by auto

text \<open>
  An instance: the summary replaces \<open>passed\<close> and \<open>failed\<close>; one skipped test and the
  coverage 87 come from the lines.
\<close>

theorem python_parse_test_output_frame_witness:
  "python_parse_test_output (''a SKIPPED'' @ [newline] @ ''TOTAL 9 87%'' @ [newline]
        @ ''== 2 failed, 5 passed in 1.23s =='')
     = Inr \<lparr>passed = 5, failed = 2, total = 8, success = False,
            skipped = 1, coverage = Some 87, status = ''FAIL''\<rparr>
   \<and> (\<exists>t. scan_lines (split_on newline (''a SKIPPED'' @ [newline] @ ''TOTAL 9 87%'' @ [newline]
                @ ''== 2 failed, 5 passed in 1.23s =='')) tally0 = Inr t
         \<and> 1 = t_skipped t \<and> Some 87 = t_coverage t)"
proof -
  have r: "python_parse_test_output (''a SKIPPED'' @ [newline] @ ''TOTAL 9 87%'' @ [newline]
        @ ''== 2 failed, 5 passed in 1.23s =='')
     = Inr \<lparr>passed = 5, failed = 2, total = 8, success = False,
            skipped = 1, coverage = Some 87, status = ''FAIL''\<rparr>"
    by (simp add: python_parse_test_output_def summary_counts_def scan_line_def count_line_def
      coverage_line_def tally0_def group_at_def py_int_def digit_value_def max_str_digits_def
      pattern_defs class_defs)
  from python_parse_test_output_frame [OF r] r show ?thesis by simp
qed

section \<open>The static heuristics\<close>

lemma keyword_fold:
  "fold (\<lambda>keyword c. if contains keyword line then c + 1 else c) ks (c::int)
   = c + int (length (filter (\<lambda>k. sublist k line) ks))"
  by (induction ks arbitrary: c) (auto simp: contains_sublist)

lemma length_filter_card:
  "distinct ks \<Longrightarrow> length (filter P ks) = card {k \<in> set ks. P k}"
  by (simp add: distinct_length_filter Int_def conj_commute)

lemma complexity_fold:
  assumes "distinct ks"
  shows "fold (\<lambda>line complexity.
                 fold (\<lambda>keyword c. if contains keyword (g line) then c + 1 else c) ks complexity)
           lines (c0::int)
         = c0 + (\<Sum>line\<leftarrow>lines. int (card {k \<in> set ks. sublist k (g line)}))"
proof (induction lines arbitrary: c0)
  case Nil
  show ?case by simp
next
  case (Cons line lines)
  have "fold (\<lambda>keyword c. if contains keyword (g line) then c + 1 else c) ks c0
        = c0 + int (card {k \<in> set ks. sublist k (g line)})"
    by (simp only: keyword_fold length_filter_card [OF assms])
  with Cons.IH show ?case by simp
qed

lemma base_keywords:
  "distinct base_complexity_keywords \<and> set base_complexity_keywords =
     {''if'', ''elif'', ''else'', ''for'', ''while'', ''try'', ''except'', ''switch'', ''case''}"
  by (simp add: base_complexity_keywords_def)

lemma python_keywords:
  "distinct python_complexity_keywords \<and> set python_complexity_keywords =
     {''if '', ''elif '', ''else:'', ''for '', ''while '', ''try:'',
      ''except '', ''with '', ''and '', ''or '', ''lambda'', ''?''}"
  by (simp add: python_complexity_keywords_def)

text \<open>
  Claim C8, as amended. For every readable file the complexity estimate is 1 plus, for
  each line of the contents, the number of keywords of the adapter's fixed set that occur
  in the line: a keyword adds one for each line it occurs in, as a substring, however
  often it occurs there. The generic set is if, elif, else, for, while, try, except,
  switch, case; the Python adapter has its own set and looks at the line with the
  whitespace at both ends stripped.
\<close>

theorem estimate_complexity_counts:
  "base_estimate_complexity (Some content) =
     1 + (\<Sum>line\<leftarrow>split_on newline content.
            int (card {k \<in> {''if'', ''elif'', ''else'', ''for'', ''while'', ''try'', ''except'',
                            ''switch'', ''case''}. sublist k line}))
   \<and> python_estimate_complexity (Some content) =
     1 + (\<Sum>line\<leftarrow>split_on newline content.
            int (card {k \<in> {''if '', ''elif '', ''else:'', ''for '', ''while '', ''try:'',
                            ''except '', ''with '', ''and '', ''or '', ''lambda'', ''?''}.
                       sublist k (strip line)}))"
proof -
  have "base_estimate_complexity (Some content) =
     1 + (\<Sum>line\<leftarrow>split_on newline content.
            int (card {k \<in> set base_complexity_keywords. sublist k line}))"
    using complexity_fold [of base_complexity_keywords "\<lambda>line. line"] base_keywords
    by (simp add: base_estimate_complexity_def)
  moreover have "python_estimate_complexity (Some content) =
     1 + (\<Sum>line\<leftarrow>split_on newline content.
            int (card {k \<in> set python_complexity_keywords. sublist k (strip line)}))"
    using complexity_fold [of python_complexity_keywords strip] python_keywords
    by (simp add: python_estimate_complexity_def Let_def)
  ultimately show ?thesis
    by (simp only: base_keywords python_keywords)
qed

text \<open>
  Claim C8 as stated, with one increment for every occurrence of a keyword, fails: the
  line \<open>if a: if b: x\<close> holds the keyword \<open>if\<close> twice and no other keyword, which
  would make 3; the loops test \<open>keyword in line\<close> once for each keyword and make 2.
\<close>

theorem estimate_complexity_not_per_occurrence:
  "base_estimate_complexity (Some ''if a: if b: x'') = 2
   \<and> complexity_per_occurrence base_complexity_keywords ''if a: if b: x'' = 3"
  by (simp add: base_estimate_complexity_def complexity_per_occurrence_def
      base_complexity_keywords_def newline_def)

text \<open>
  A keyword counts inside a longer word (\<open>elif\<close> counts for \<open>if\<close> and for \<open>elif\<close>).
  For the Python adapter the line is stripped first, of whitespace beyond ASCII too: the
  keyword \<open>and\<close> with its blank is in the line \<open>a and\<close> followed by a blank and
  U+00A0, and not in the stripped line.
\<close>

lemma keyword_inside_word: "base_estimate_complexity (Some ''elif a:'') = 3"
  by (simp add: base_estimate_complexity_def base_complexity_keywords_def newline_def)

lemma python_keyword_after_strip:
  "python_estimate_complexity (Some (''a and '' @ [CHR 0xC2, CHR 0xA0])) = 1"
  by (simp add: python_estimate_complexity_def python_complexity_keywords_def newline_def
      strip_def lstrip_def rstrip_def spaces_def ascii_spaces_def unicode_spaces_def)

text \<open>
  Claim C10. When reading the file raises, \<open>estimate_complexity\<close> and
  \<open>get_function_count\<close> return 0, in the generic adapter and in the Python adapter.
\<close>

theorem heuristics_unreadable:
  "base_estimate_complexity None = 0 \<and> base_get_function_count None = 0
   \<and> python_estimate_complexity None = 0 \<and> python_get_function_count None = 0"
  by (simp add: base_estimate_complexity_def base_get_function_count_def
      python_estimate_complexity_def python_get_function_count_def)

section \<open>The classifier\<close>

lemmas classifier_defs = scores_def template_score_def files_in_project_def keywords_found_def
  keywords_in_def PROJECT_TEMPLATES_def package_files_def ignore_patterns_def count_sep_def
  path_join_def sep_def lower_def lower_char_def upper_letters_def lower_letters_def

text \<open>
  Claim C3. A project directory with \<open>Cargo.toml\<close> and \<open>src/main.rs\<close> and no other
  indicator or keyword is classified as the Rust template. The claim gives the Rust
  template the score 6, and 11 when a root manifest contains \<open>tokio\<close>. The walk collects
  the names of the files without their directories, so the indicator \<open>src/main.rs\<close> is
  never among them: the score computed is 3, and 8 with the keyword.
\<close>

theorem rust_project_scores:
  "files_in_project \<lparr>project_path = ''/proj'',
       entries = [(''Cargo.toml'', File (Some ''[package]'')),
                  (''src'', Dir [(''main.rs'', File (Some ''fn main() {}''))])]\<rparr>
     = [''Cargo.toml'', ''main.rs'']
   \<and> map_of (scores \<lparr>project_path = ''/proj'',
       entries = [(''Cargo.toml'', File (Some ''[package]'')),
                  (''src'', Dir [(''main.rs'', File (Some ''fn main() {}''))])]\<rparr>) ''rust_project''
     = Some 3
   \<and> detect_project_type \<lparr>project_path = ''/proj'',
       entries = [(''Cargo.toml'', File (Some ''[package]'')),
                  (''src'', Dir [(''main.rs'', File (Some ''fn main() {}''))])]\<rparr>
     = ''rust_project''
   \<and> map_of (scores \<lparr>project_path = ''/proj'',
       entries = [(''Cargo.toml'', File (Some ''tokio'')),
                  (''src'', Dir [(''main.rs'', File (Some ''fn main() {}''))])]\<rparr>) ''rust_project''
     = Some 8"
  by (simp add: detect_project_type_def classifier_defs)

text \<open>
  No directory reaches the scores of the claim: file names hold no separator, the walk
  collects file names only, so of the Rust indicators only \<open>Cargo.toml\<close> can count, and
  the Rust score is at most 3 + 5.
\<close>

lemma os_walk_names:
  "plain_names n \<Longrightarrow> (d, fs) \<in> set (os_walk d0 n) \<Longrightarrow> f \<in> set fs \<Longrightarrow> sep \<notin> set f"
proof (induction d0 n arbitrary: d fs rule: os_walk.induct)
  case (1 dirpath content)
  then show ?case by simp
next
  case (2 dirpath es)
  from "2.prems"(2) consider
    (here) "fs = map fst (filter (\<lambda>e. is_file (snd e)) es)"
    | (below) e where "e \<in> set es" "(d, fs) \<in> set (os_walk (path_join dirpath (fst e)) (snd e))"
    by auto
  then show ?case
  proof cases
    case here
    with "2.prems" show ?thesis by (auto simp: list_all_iff)
  next
    case below
    moreover from below "2.prems"(1) have "plain_names (snd e)"
      by (auto simp: list_all_iff)
    ultimately show ?thesis
      using "2.IH" "2.prems"(3) by blast
  qed
qed

lemma fold_files_subset:
  assumes "\<And>x acc. set (f x acc) \<subseteq> set acc \<union> set (snd x)"
  shows "set (fold f w acc) \<subseteq> set acc \<union> (\<Union>x\<in>set w. set (snd x))"
proof (induction w arbitrary: acc)
  case Nil
  show ?case by simp
next
  case (Cons x w)
  have "set (fold f w (f x acc)) \<subseteq> set (f x acc) \<union> (\<Union>x\<in>set w. set (snd x))"
    by (rule Cons.IH)
  also have "\<dots> \<subseteq> (set acc \<union> set (snd x)) \<union> (\<Union>x\<in>set w. set (snd x))"
    using assms [of x acc] by blast
  finally show ?case by auto
qed

lemma files_in_project_names:
  assumes "plain_names (Dir (entries p))" and "f \<in> set (files_in_project p)"
  shows "sep \<notin> set f"
proof -
  define w where "w = os_walk (project_path p) (Dir (entries p))"
  have "set (files_in_project p) \<subseteq> set [] \<union> (\<Union>x\<in>set w. set (snd x))"
    unfolding files_in_project_def w_def by (rule fold_files_subset) (auto split: if_splits)
  with assms(2) obtain x where x: "x \<in> set w" and f: "f \<in> set (snd x)"
    by auto
  from x have "(fst x, snd x) \<in> set (os_walk (project_path p) (Dir (entries p)))"
    by (simp add: w_def)
  from os_walk_names [OF assms(1) this f] show ?thesis .
qed

lemma rust_score_bound:
  assumes "plain_names (Dir (entries p))"
  shows "\<exists>n. map_of (scores p) ''rust_project'' = Some n \<and> n \<le> 8"
proof -
  define t where "t = the (map_of PROJECT_TEMPLATES ''rust_project'')"
  have m: "CHR ''/'' \<in> set ''src/main.rs''" and l: "CHR ''/'' \<in> set ''src/lib.rs''"
    by simp_all
  have main: "''src/main.rs'' \<notin> set (files_in_project p)"
    using files_in_project_names [OF assms, of "''src/main.rs''"] m unfolding sep_def by blast
  have lib: "''src/lib.rs'' \<notin> set (files_in_project p)"
    using files_in_project_names [OF assms, of "''src/lib.rs''"] l unfolding sep_def by blast
  have ind: "indicators t = [''Cargo.toml'', ''src/main.rs'', ''src/lib.rs'']"
    by (simp add: t_def PROJECT_TEMPLATES_def)
  have "map_of (scores p) ''rust_project'' =
        Some (template_score (files_in_project p) (keywords_found p) ''rust_project'' t)"
    by (simp add: t_def scores_def PROJECT_TEMPLATES_def)
  moreover have "template_score (files_in_project p) (keywords_found p) ''rust_project'' t \<le> 8"
    by (simp add: template_score_def Let_def ind main lib)
  ultimately show ?thesis by simp
qed

lemma first_max_mem: "first_max best xs \<in> set (best # xs)"
  by (induction xs arbitrary: best) auto

lemma scores_names: "map fst (scores p) = map fst PROJECT_TEMPLATES"
  by (simp add: scores_def case_prod_beta comp_def)

lemma template_names:
  "map fst PROJECT_TEMPLATES =
     [''python_ml'', ''python_api'', ''typescript_node'', ''react_frontend'', ''go_service'',
      ''rust_project'']"
  by (simp add: PROJECT_TEMPLATES_def)

lemma detect_project_type_name:
  "detect_project_type p \<in> set (map fst PROJECT_TEMPLATES)"
proof (cases "scores p")
  case Nil
  then show ?thesis
    by (simp add: detect_project_type_def template_names)
next
  case (Cons s ss)
  have "fst (first_max s ss) \<in> fst ` set (s # ss)"
    using first_max_mem [of s ss] by (rule imageI)
  also have "\<dots> = set (map fst PROJECT_TEMPLATES)"
    using scores_names [of p] Cons by (metis set_map)
  finally show ?thesis
    using Cons by (simp add: detect_project_type_def template_names)
qed

lemma round_trip_of_name:
  "name \<in> set (map fst PROJECT_TEMPLATES) \<Longrightarrow>
   \<exists>t. map_of PROJECT_TEMPLATES name = Some t
     \<and> language (get_language_adapter (config_language t)) = config_language t"
  by (auto simp: PROJECT_TEMPLATES_def get_language_adapter_def ADAPTERS_def lower_def
      lower_char_def upper_letters_def lower_letters_def)

text \<open>
  Claim C7. For every project directory, the template it is classified to is in the
  catalogue, and resolving the language that template declares gives an adapter whose
  \<open>language\<close> is that language.
\<close>

theorem classify_resolve_round_trip:
  "\<exists>t. map_of PROJECT_TEMPLATES (detect_project_type p) = Some t
     \<and> language (get_language_adapter (config_language t)) = config_language t"
  using detect_project_type_name by (rule round_trip_of_name)

section \<open>The parsers' results\<close>

lemma count_lines_nonneg: "0 \<le> count_lines cond lines"
  by (induction lines) (auto simp: count_lines_def)

lemma base_parsers_counts:
  "0 \<le> passed (base_parse_test_output output) \<and> 0 \<le> failed (base_parse_test_output output)
   \<and> 0 \<le> total (base_parse_test_output output)
   \<and> 0 \<le> errors (base_parse_lint_output output) \<and> 0 \<le> warnings (base_parse_lint_output output)
   \<and> 0 \<le> total_issues (base_parse_lint_output output)
   \<and> 0 \<le> high (base_parse_security_output output) \<and> 0 \<le> medium (base_parse_security_output output)
   \<and> 0 \<le> low (base_parse_security_output output)
   \<and> 0 \<le> security_total_issues (base_parse_security_output output)"
  by (simp add: base_parse_test_output_def base_parse_lint_output_def
      base_parse_security_output_def Let_def count_lines_nonneg)

lemma python_parse_test_output_counts:
  assumes "python_parse_test_output output = Inr r"
  shows "0 \<le> passed r \<and> 0 \<le> failed r \<and> 0 \<le> skipped r \<and> 0 \<le> total r"
  using python_parse_test_output_result [OF assms] by (auto simp: tally_ok_def)

lemma lint_line_nonneg:
  "0 \<le> l_errors t \<Longrightarrow> 0 \<le> l_warnings t \<Longrightarrow>
   0 \<le> l_errors (lint_line line t) \<and> 0 \<le> l_warnings (lint_line line t)"
  by (simp add: lint_line_def Let_def split: option.split)

lemma lint_fold_nonneg:
  "0 \<le> l_errors t \<Longrightarrow> 0 \<le> l_warnings t \<Longrightarrow>
   0 \<le> l_errors (fold lint_line lines t) \<and> 0 \<le> l_warnings (fold lint_line lines t)"
  by (induction lines arbitrary: t) (simp_all add: lint_line_nonneg)

lemma python_parse_lint_output_counts:
  "0 \<le> errors (python_parse_lint_output output) \<and> 0 \<le> warnings (python_parse_lint_output output)
   \<and> 0 \<le> total_issues (python_parse_lint_output output)"
  using lint_fold_nonneg [of "\<lparr>l_errors = 0, l_warnings = 0, l_issues_by_type = []\<rparr>"
      "split_on newline output"]
  by (simp add: python_parse_lint_output_def Let_def)

lemma python_parse_security_output_text:
  "\<exists>r. python_parse_security_output None output = Inr r
     \<and> (\<exists>h m l t. bandit_high r = PInt h \<and> 0 \<le> h \<and> bandit_medium r = PInt m \<and> 0 \<le> m
          \<and> bandit_low r = PInt l \<and> 0 \<le> l \<and> bandit_total_issues r = PInt t \<and> 0 \<le> t)"
  using base_parsers_counts [of "output"]
  by (simp add: python_parse_security_output_def from_text_def)

text \<open>
  Claim C5. Every parser returns on every raw output, with counts that are not negative.
  The three generic parsers and the Python lint parser do, and so does the Python security
  parser on an output that is not JSON; the Python test parser returns counts that are
  not negative whenever it returns, which it does on every output of at most 4300
  characters (the lemmas above) and does not on a coverage figure of more digits. On JSON
  that is not an object the security parser does not return: \<open>[]\<close> decodes to a list,
  which has no \<open>get\<close>, and the \<open>AttributeError\<close> is not caught.
\<close>

theorem python_parse_security_output_not_object:
  "python_parse_security_output (Some (PList [])) ''[]'' = Inl AttributeError"
  by (simp add: python_parse_security_output_def)

lemma python_parse_security_output_success:
  assumes "python_parse_security_output (Some bandit_data) output = Inr r"
  shows "\<exists>metrics totals h.
           dict_get bandit_data ''metrics'' (PDict []) = Inr metrics
         \<and> dict_get metrics ''_totals'' (PDict []) = Inr totals
         \<and> dict_get totals ''SEVERITY.HIGH'' (PInt 0) = Inr h
         \<and> bandit_high r = h
         \<and> bandit_success r = (as_int h = Some 0)"
  using assms unfolding python_parse_security_output_def
  by (auto dest!: and_then_InrD simp: py_eq_int_def)

lemma bandit_report_success:
  "python_parse_security_output
     (Some (PDict [(''metrics'', PDict [(''_totals'',
              PDict [(''SEVERITY.HIGH'', PInt h), (''SEVERITY.MEDIUM'', PInt m),
                     (''SEVERITY.LOW'', PInt l)])]),
            (''results'', PList [])])) output
   = Inr \<lparr>bandit_high = PInt h, bandit_medium = PInt m, bandit_low = PInt l,
          bandit_total_issues = PInt (h + m + l),
          bandit_issues_by_type = Some [],
          bandit_success = (h = 0),
          bandit_status = Some (if h = 0 then ''CLEAR'' else ''ISSUES'')\<rparr>"
  by (simp add: python_parse_security_output_def py_add_def py_eq_int_def)

text \<open>
  Claim C4. On JSON with \<open>metrics._totals["SEVERITY.HIGH"]\<close> equal to 1 the parser is to
  return \<open>success = false\<close>, and \<open>true\<close> with 0, whatever the medium and low counts.
  Whenever the parser returns, \<open>success\<close> says whether the high count equals 0 (the two
  lemmas above). It does not return on every such document: with \<open>"results": null\<close>
  the loop over the results raises \<open>TypeError\<close>, which is not caught.
\<close>

theorem python_parse_security_output_high_raises:
  "python_parse_security_output
     (Some (PDict [(''metrics'', PDict [(''_totals'', PDict [(''SEVERITY.HIGH'', PInt 1)])]),
            (''results'', PNone)])) output
   = Inl TypeError"
  by (simp add: python_parse_security_output_def)

section \<open>The evaluator\<close>

text \<open>
  Claim C6. With an absolute policy the evaluator passes a measured value exactly when
  it meets or exceeds the policy's target value.
\<close>

theorem evaluate_absolute:
  assumes "absolute policy"
  shows "evaluate relative measuredValue policy \<longleftrightarrow> targetValue policy \<le> measuredValue"
  using assms by (simp add: evaluate_def)

text \<open>
  With the target 80, the measured value 85 passes and 79.9 fails, whatever the rule for
  relative policies.
\<close>

theorem evaluate_absolute_witness:
  "absolute \<lparr>targetValue = 80, capValue = None, absolute = True, unit = ''%''\<rparr>
   \<and> evaluate (\<lambda>m p. False) 85 \<lparr>targetValue = 80, capValue = None, absolute = True, unit = ''%''\<rparr>
   \<and> \<not> evaluate (\<lambda>m p. True) 79.9 \<lparr>targetValue = 80, capValue = None, absolute = True, unit = ''%''\<rparr>"
proof -
  have a: "absolute \<lparr>targetValue = 80, capValue = None, absolute = True, unit = ''%''\<rparr>"
    by simp
  show ?thesis
    using a evaluate_absolute [OF a, of "\<lambda>m p. False" 85] evaluate_absolute [OF a, of "\<lambda>m p. True" "79.9"]
    by simp
qed

end
